theory Spec2Isabelle
  imports Main
begin

section \<open>Data model of \<open>utils/terminal.py\<close>\<close>

text \<open>
  A Python \<open>str\<close> is a sequence of Unicode code points. A code point is a natural number
  here, so that every line boundary known to \<open>str.splitlines\<close> can be written down; the
  helper \<open>str\<close> turns an Isabelle string literal into such a sequence.
\<close>

type_synonym codepoint = nat
type_synonym pystr = "codepoint list"

definition str :: "string \<Rightarrow> pystr" where
  "str s = map of_char s"

definition space :: codepoint where
  "space = 32"

datatype py_error = ValueError | IndexError

text \<open>\<open>Coord(column, row)\<close>, as the effects and \<open>EffectCharacter\<close> build it.\<close>

record Coord =
  column :: int
  row :: int

text \<open>
  The dataclass \<open>OutputArea\<close>. Its fields are \<open>top\<close>, \<open>right\<close>, \<open>bottom\<close> and \<open>left\<close>;
  \<open>top\<close> is the top element of a lattice in HOL, so the four fields carry the words of the
  docstring (top row, right column, bottom row, left column).
\<close>

record OutputArea =
  top_row :: int
  right_column :: int
  bottom_row :: int
  left_column :: int

definition new_OutputArea :: "int \<Rightarrow> int \<Rightarrow> OutputArea" where
  "new_OutputArea t r = \<lparr>top_row = t, right_column = r, bottom_row = 1, left_column = 1\<rparr>"

text \<open>
  Modelled from the spec: the class \<open>EffectCharacter\<close> of \<open>base_character.py\<close> is not part
  of the sources. The compositor reads \<open>symbol\<close>, \<open>input_coord\<close>, \<open>current_coord\<close> and
  \<open>is_active\<close>; the effects also assign \<open>layer\<close> (integer, default 0). A new character is
  built by \<open>EffectCharacter(symbol, input_column, input_row)\<close>; it starts at its input
  coordinate and is not drawn until an effect activates it.
\<close>

record EffectCharacter =
  symbol :: codepoint
  input_coord :: Coord
  current_coord :: Coord
  is_active :: bool
  layer :: int

definition new_EffectCharacter :: "codepoint \<Rightarrow> int \<Rightarrow> int \<Rightarrow> EffectCharacter" where
  "new_EffectCharacter s input_column input_row =
     \<lparr>symbol = s,
      input_coord = \<lparr>column = input_column, row = input_row\<rparr>,
      current_coord = \<lparr>column = input_column, row = input_row\<rparr>,
      is_active = False,
      layer = 0\<rparr>"

record Terminal =
  input_data :: pystr
  width :: int
  height :: int
  characters :: "EffectCharacter list"
  input_width :: int
  input_height :: int
  output_area :: OutputArea
  terminal_state :: "pystr list"

section \<open>Python built-ins used by the compositor\<close>

text \<open>
  \<open>str.splitlines()\<close>: the line boundaries are LF, VT, FF, CR, CR LF, FS, GS, RS, NEL,
  LS and PS. A boundary ends the current line, CR LF counts once, and no empty line is
  produced after a final boundary.
\<close>

definition is_linebreak :: "codepoint \<Rightarrow> bool" where
  "is_linebreak c \<longleftrightarrow> c \<in> {10, 11, 12, 13, 28, 29, 30, 133, 8232, 8233}"

fun splitlines_from :: "pystr \<Rightarrow> pystr \<Rightarrow> pystr list" where
  "splitlines_from cur [] = (if cur = [] then [] else [cur])"
| "splitlines_from cur [c] =
     (if is_linebreak c then [cur] else [cur @ [c]])"
| "splitlines_from cur (c # d # cs) =
     (if c = 13 \<and> d = 10 then cur # splitlines_from [] cs
      else if is_linebreak c then cur # splitlines_from [] (d # cs)
      else splitlines_from (cur @ [c]) (d # cs))"

definition splitlines :: "pystr \<Rightarrow> pystr list" where
  "splitlines s = splitlines_from [] s"

text \<open>
  The slices \<open>xs[:n]\<close> and \<open>xs[n:]\<close>: a negative bound counts from the end and is
  clipped at the start of the list.
\<close>

definition slice_to :: "'a list \<Rightarrow> int \<Rightarrow> 'a list" where
  "slice_to xs n = (if n < 0 then take (nat (int (length xs) + n)) xs else take (nat n) xs)"

definition slice_from :: "'a list \<Rightarrow> int \<Rightarrow> 'a list" where
  "slice_from xs n = (if n < 0 then drop (nat (int (length xs) + n)) xs else drop (nat n) xs)"

text \<open>\<open>max(xs)\<close> raises \<open>ValueError\<close> on an empty list.\<close>

fun py_max :: "int list \<Rightarrow> py_error + int" where
  "py_max [] = Inl ValueError"
| "py_max (x # xs) = Inr (fold max xs x)"

text \<open>
  The position that \<open>xs[i]\<close> reads or writes in a list of length \<open>n\<close>: an index from
  \<open>-n\<close> to \<open>-1\<close> counts from the end, anything else out of range raises \<open>IndexError\<close>.
\<close>

definition py_index :: "nat \<Rightarrow> int \<Rightarrow> py_error + nat" where
  "py_index n i =
     (if 0 \<le> i \<and> i < int n then Inr (nat i)
      else if - int n \<le> i \<and> i < 0 then Inr (nat (int n + i))
      else Inl IndexError)"

section \<open>\<open>Terminal._decompose_input\<close>\<close>

text \<open>
  The inner \<open>while\<close> loop wraps one line. It need not stop (the slice \<open>line[width:]\<close> is
  the whole line when \<open>width\<close> is 0), so the loop is a partial function and \<open>None\<close> stands
  for a run that never returns.
\<close>

partial_function (option) wrap_line :: "int \<Rightarrow> pystr list \<Rightarrow> pystr \<Rightarrow> pystr list option" where
  "wrap_line w wrapped_lines line =
     (if int (length line) > w
      then wrap_line w (wrapped_lines @ [slice_to line w]) (slice_from line w)
      else Some (if line \<noteq> [] then wrapped_lines @ [line] else wrapped_lines))"

declare wrap_line.simps [code]

fun wrap_lines :: "int \<Rightarrow> pystr list \<Rightarrow> pystr list \<Rightarrow> pystr list option" where
  "wrap_lines w wrapped_lines [] = Some wrapped_lines"
| "wrap_lines w wrapped_lines (line # input_lines) =
     (case wrap_line w wrapped_lines line of
        None \<Rightarrow> None
      | Some wrapped_lines' \<Rightarrow> wrap_lines w wrapped_lines' input_lines)"

text \<open>The characters of one wrapped line: \<open>enumerate(line)\<close>, spaces skipped.\<close>

definition line_characters :: "int \<Rightarrow> nat \<Rightarrow> pystr \<Rightarrow> EffectCharacter list" where
  "line_characters h r line =
     map (\<lambda>(c, s). new_EffectCharacter s (int c + 1) (h - int r))
       (filter (\<lambda>(c, s). s \<noteq> space) (enumerate 0 line))"

definition input_characters :: "pystr list \<Rightarrow> EffectCharacter list" where
  "input_characters wrapped_lines =
     concat (map (\<lambda>(r, line). line_characters (int (length wrapped_lines)) r line)
       (enumerate 0 wrapped_lines))"

definition decompose_input :: "int \<Rightarrow> pystr \<Rightarrow> EffectCharacter list option" where
  "decompose_input w s =
     (case wrap_lines w [] (splitlines s) of
        None \<Rightarrow> None
      | Some wrapped_lines \<Rightarrow> Some (input_characters wrapped_lines))"

section \<open>\<open>Terminal._update_terminal_state\<close> and \<open>Terminal.print\<close>\<close>

text \<open>
  The buffer has \<open>range(top)\<close> rows of \<open>range(right)\<close> blanks each, every row a list of
  its own; a range with a bound below 1 is empty.
\<close>

definition blank_rows :: "OutputArea \<Rightarrow> pystr list" where
  "blank_rows a = replicate (nat (top_row a)) (replicate (nat (right_column a)) space)"

text \<open>
  \<open>rows[row - 1][column - 1] = symbol\<close> for an active character: the row is read first,
  then the cell is written, each with Python's indexing.
\<close>

definition stamp :: "pystr list \<Rightarrow> EffectCharacter \<Rightarrow> py_error + pystr list" where
  "stamp rows character =
     (if is_active character then
        (case py_index (length rows) (row (current_coord character) - 1) of
           Inl e \<Rightarrow> Inl e
         | Inr r \<Rightarrow>
            (case py_index (length (rows ! r)) (column (current_coord character) - 1) of
               Inl e \<Rightarrow> Inl e
             | Inr c \<Rightarrow> Inr (rows[r := (rows ! r)[c := symbol character]])))
      else Inr rows)"

fun stamp_all :: "pystr list \<Rightarrow> EffectCharacter list \<Rightarrow> py_error + pystr list" where
  "stamp_all rows [] = Inr rows"
| "stamp_all rows (character # cs) =
     (case stamp rows character of
        Inl e \<Rightarrow> Inl e
      | Inr rows' \<Rightarrow> stamp_all rows' cs)"

definition update_terminal_state :: "Terminal \<Rightarrow> py_error + Terminal" where
  "update_terminal_state t =
     (case stamp_all (blank_rows (output_area t)) (characters t) of
        Inl e \<Rightarrow> Inl e
      | Inr rows \<Rightarrow> Inr (t\<lparr>terminal_state := rows\<rparr>))"

text \<open>
  What \<open>print\<close> writes. The module \<open>ansicodes\<close> is not part of the sources, so each of its
  control sequences is a token named after the function that builds it.
\<close>

datatype stdout_write =
    DEC_SAVE_CURSOR_POSITION
  | MOVE_CURSOR_UP int
  | MOVE_CURSOR_TO_COLUMN int
  | Text pystr
  | DEC_RESTORE_CURSOR_POSITION
  | Flush

definition row_writes :: "nat \<Rightarrow> pystr \<Rightarrow> stdout_write list" where
  "row_writes row_index r =
     [DEC_SAVE_CURSOR_POSITION, MOVE_CURSOR_UP (int row_index + 1), MOVE_CURSOR_TO_COLUMN 1,
      Text r, DEC_RESTORE_CURSOR_POSITION, Flush]"

definition print_terminal :: "Terminal \<Rightarrow> py_error + Terminal \<times> stdout_write list" where
  "print_terminal t =
     (case update_terminal_state t of
        Inl e \<Rightarrow> Inl e
      | Inr t' \<Rightarrow>
          Inr (t', concat (map (\<lambda>(i, r). row_writes i r) (enumerate 0 (terminal_state t')))))"

text \<open>\<open>_prep_outputarea\<close> only writes: \<open>top\<close> newlines and the one \<open>print\<close> appends.\<close>

definition prep_outputarea :: "Terminal \<Rightarrow> pystr" where
  "prep_outputarea t = replicate (nat (top_row (output_area t))) 10 @ [10]"

section \<open>\<open>Terminal.__init__\<close>\<close>

text \<open>
  The terminal size comes from \<open>shutil.get_terminal_size()\<close> and is a parameter here.
  The result is \<open>None\<close> when decomposition never returns, \<open>Some (Inl e)\<close> when the
  constructor raises \<open>e\<close>, and \<open>Some (Inr t)\<close> for the terminal it builds. The attribute
  \<open>terminal_state\<close> does not exist before the first update; it starts as the empty list.
\<close>

definition Terminal_init :: "int \<Rightarrow> int \<Rightarrow> pystr \<Rightarrow> (py_error + Terminal) option" where
  "Terminal_init w h s =
     (case decompose_input w s of
        None \<Rightarrow> None
      | Some cs \<Rightarrow> Some
          (case py_max (map (\<lambda>c. column (input_coord c)) cs) of
             Inl e \<Rightarrow> Inl e
           | Inr iw \<Rightarrow>
              (case py_max (map (\<lambda>c. row (input_coord c)) cs) of
                 Inl e \<Rightarrow> Inl e
               | Inr ih \<Rightarrow>
                  (let area = new_OutputArea (min (h - 1) ih) iw
                   in update_terminal_state
                        \<lparr>input_data = s, width = w, height = h,
                         characters = filter (\<lambda>c. row (input_coord c) \<le> top_row area) cs,
                         input_width = iw, input_height = ih,
                         output_area = area, terminal_state = []\<rparr>))))"

section \<open>The driving loops of the effects\<close>








section \<open>Notions used to state the properties\<close>

text \<open>A coordinate inside the output area, and the buffer cell that belongs to it.\<close>

definition inside :: "OutputArea \<Rightarrow> Coord \<Rightarrow> bool" where
  "inside a p \<longleftrightarrow>
     bottom_row a \<le> row p \<and> row p \<le> top_row a \<and> left_column a \<le> column p \<and> column p \<le> right_column a"

definition cell :: "pystr list \<Rightarrow> Coord \<Rightarrow> codepoint" where
  "cell rows p = rows ! nat (row p - 1) ! nat (column p - 1)"

text \<open>A buffer of \<open>T\<close> rows, each \<open>R\<close> cells long.\<close>

definition grid :: "nat \<Rightarrow> nat \<Rightarrow> pystr list \<Rightarrow> bool" where
  "grid T R rows \<longleftrightarrow> length rows = T \<and> (\<forall>r\<in>set rows. length r = R)"

text \<open>The symbol of the last active character of the list that stands at \<open>p\<close>, else a blank.\<close>

definition last_stamped :: "EffectCharacter list \<Rightarrow> Coord \<Rightarrow> codepoint" where
  "last_stamped cs p =
     (case filter (\<lambda>c. is_active c \<and> current_coord c = p) cs of
        [] \<Rightarrow> space
      | d # ds \<Rightarrow> symbol (last (d # ds)))"

text \<open>
  The rule in the words of the specification: the highest layer wins, and among equal
  layers the character stamped last.
\<close>

definition highest_layer :: "EffectCharacter list \<Rightarrow> Coord \<Rightarrow> codepoint" where
  "highest_layer cs p =
     (case fold (\<lambda>c best. if is_active c \<and> current_coord c = p
                             \<and> (case best of None \<Rightarrow> True | Some b \<Rightarrow> layer b \<le> layer c)
                           then Some c else best) cs None of
        None \<Rightarrow> space
      | Some c \<Rightarrow> symbol c)"

section \<open>Auxiliary facts about decomposition\<close>

lemma slice_to_from: "slice_to xs n @ slice_from xs n = xs"
  by (simp add: slice_to_def slice_from_def)

lemma wrap_line_Some:
  "1 \<le> w \<Longrightarrow> \<exists>ch. wrap_line w acc line = Some (acc @ ch) \<and> concat ch = line
      \<and> (\<forall>c\<in>set ch. c \<noteq> [] \<and> int (length c) \<le> w)"
proof (induction line arbitrary: acc rule: length_induct)
  case (1 line)
  show ?case
  proof (cases "int (length line) > w")
    case False
    then show ?thesis
      by (subst wrap_line.simps) auto
  next
    case True
    let ?hd = "slice_to line w" and ?tl = "slice_from line w"
    from True 1(2) have len: "length ?tl < length line" and hd: "?hd \<noteq> []" "int (length ?hd) \<le> w"
      by (auto simp: slice_from_def slice_to_def)
    from 1(1) len 1(2) obtain ch where ch: "wrap_line w ((acc @ [?hd])) ?tl = Some ((acc @ [?hd]) @ ch)"
      "concat ch = ?tl" "\<forall>c\<in>set ch. c \<noteq> [] \<and> int (length c) \<le> w"
      by blast
    have "wrap_line w acc line = Some (acc @ (?hd # ch))"
      using True ch(1) by (subst wrap_line.simps) simp
    moreover have "concat (?hd # ch) = line"
      using ch(2) by (simp add: slice_to_from)
    ultimately show ?thesis using ch(3) hd
      by (intro exI[of _ "?hd # ch"]) simp
  qed
qed

lemma wrap_lines_Some:
  "1 \<le> w \<Longrightarrow> \<exists>ch. wrap_lines w acc ls = Some (acc @ ch) \<and> concat ch = concat ls
      \<and> (\<forall>c\<in>set ch. c \<noteq> [] \<and> int (length c) \<le> w)"
proof (induction ls arbitrary: acc)
  case Nil
  then show ?case by simp
next
  case (Cons l ls)
  from wrap_line_Some[OF Cons.prems, of acc l] obtain ch1 where
    ch1: "wrap_line w acc l = Some (acc @ ch1)" "concat ch1 = l"
      "\<forall>c\<in>set ch1. c \<noteq> [] \<and> int (length c) \<le> w" by blast
  from Cons.IH[OF Cons.prems, of "acc @ ch1"] obtain ch2 where
    ch2: "wrap_lines w (acc @ ch1) ls = Some ((acc @ ch1) @ ch2)" "concat ch2 = concat ls"
      "\<forall>c\<in>set ch2. c \<noteq> [] \<and> int (length c) \<le> w" by blast
  show ?case
    using ch1 ch2 by (intro exI[of _ "ch1 @ ch2"]) auto
qed

lemma wrap_line_None:
  assumes "w \<le> 0" and "int (length line) > w"
  shows "wrap_line w acc line = None"
proof -
  have "\<not> (w \<le> 0 \<and> int (length line) > w)" if "wrap_line w acc line = Some y" for y
  proof (rule wrap_line.raw_induct
      [where P = "\<lambda>w acc line y. \<not> (w \<le> 0 \<and> int (length line) > w)", OF _ that])
    fix f :: "int \<Rightarrow> pystr list \<Rightarrow> pystr \<Rightarrow> pystr list option" and w acc line y
    assume IH: "\<And>w acc line y. f w acc line = Some y \<Longrightarrow> \<not> (w \<le> 0 \<and> int (length line) > w)"
      and step: "(if w < int (length line)
         then f w (acc @ [slice_to line w]) (slice_from line w)
         else Some (if line \<noteq> [] then acc @ [line] else acc)) = Some y"
    show "\<not> (w \<le> 0 \<and> int (length line) > w)"
    proof
      assume inv: "w \<le> 0 \<and> int (length line) > w"
      then have "w \<le> 0 \<and> int (length (slice_from line w)) > w"
        by (auto simp: slice_from_def)
      moreover from inv step have "f w (acc @ [slice_to line w]) (slice_from line w) = Some y"
        by simp
      ultimately show False using IH by blast
    qed
  qed
  with assms show ?thesis by (cases "wrap_line w acc line") auto
qed


lemma wrap_lines_chunks:
  "1 \<le> w \<Longrightarrow> \<exists>chunks. wrap_lines w acc ls = Some (acc @ concat chunks)
      \<and> list_all2 (\<lambda>line ch. concat ch = line \<and> (\<forall>c\<in>set ch. c \<noteq> [] \<and> int (length c) \<le> w)) ls chunks"
proof (induction ls arbitrary: acc)
  case Nil
  then show ?case by simp
next
  case (Cons l ls)
  from wrap_line_Some[OF Cons.prems, of acc l] obtain ch1 where
    ch1: "wrap_line w acc l = Some (acc @ ch1)" "concat ch1 = l"
      "\<forall>c\<in>set ch1. c \<noteq> [] \<and> int (length c) \<le> w" by blast
  from Cons.IH[OF Cons.prems, of "acc @ ch1"] obtain chunks where
    ch2: "wrap_lines w (acc @ ch1) ls = Some ((acc @ ch1) @ concat chunks)"
      "list_all2 (\<lambda>line ch. concat ch = line \<and> (\<forall>c\<in>set ch. c \<noteq> [] \<and> int (length c) \<le> w)) ls chunks"
    by blast
  show ?case
    using ch1 ch2 by (intro exI[of _ "ch1 # chunks"]) simp
qed

lemma wrap_lines_None:
  assumes "w \<le> 0" and "l \<in> set ls" and "int (length l) > w"
  shows "wrap_lines w acc ls = None"
  using assms(2)
proof (induction ls arbitrary: acc)
  case Nil
  then show ?case by simp
next
  case (Cons x xs)
  show ?case
  proof (cases "wrap_line w acc x")
    case None
    then show ?thesis by simp
  next
    case (Some acc')
    with wrap_line_None[OF assms(1), of x acc] assms(3) have "x \<noteq> l" by auto
    with Cons.prems have "l \<in> set xs" by simp
    with Cons.IH Some show ?thesis by simp
  qed
qed

lemma concat_splitlines_from:
  "concat (splitlines_from cur s) = cur @ filter (\<lambda>c. \<not> is_linebreak c) s"
  by (induction cur s rule: splitlines_from.induct) (auto simp: is_linebreak_def)

lemma concat_splitlines: "concat (splitlines s) = filter (\<lambda>c. \<not> is_linebreak c) s"
  by (simp add: splitlines_def concat_splitlines_from)

lemma filter_snd_enumerate:
  "map snd (filter (\<lambda>p. P (snd p)) (enumerate n xs)) = filter P xs"
  by (induction xs arbitrary: n) simp_all

lemma map_snd_enumerate_fun:
  "map (\<lambda>p. f (snd p)) (enumerate n xs) = map f xs"
  by (induction xs arbitrary: n) simp_all

lemma symbol_line_characters:
  "map symbol (line_characters h r line) = filter (\<lambda>s. s \<noteq> space) line"
proof -
  have "map symbol (line_characters h r line)
      = map snd (filter (\<lambda>p. snd p \<noteq> space) (enumerate 0 line))"
    by (simp add: line_characters_def new_EffectCharacter_def case_prod_unfold comp_def)
  then show ?thesis
    using filter_snd_enumerate [of "\<lambda>s. s \<noteq> space" 0 line] by simp
qed

lemma symbol_input_characters:
  "map symbol (input_characters wrapped) = filter (\<lambda>s. s \<noteq> space) (concat wrapped)"
proof -
  have "map symbol (input_characters wrapped)
      = concat (map (\<lambda>p. filter (\<lambda>s. s \<noteq> space) (snd p)) (enumerate 0 wrapped))"
    by (simp add: input_characters_def map_concat comp_def case_prod_unfold symbol_line_characters)
  then show ?thesis
    using map_snd_enumerate_fun [of "filter (\<lambda>s. s \<noteq> space)" 0 wrapped]
    by (simp add: filter_concat)
qed

lemma in_line_characters:
  "c \<in> set (line_characters h r line) \<longleftrightarrow>
     (\<exists>k<length line. line ! k \<noteq> space \<and> c = new_EffectCharacter (line ! k) (int k + 1) (h - int r))"
  by (auto simp: line_characters_def in_set_enumerate_eq image_iff Bex_def)

lemma in_input_characters:
  "c \<in> set (input_characters wrapped) \<longleftrightarrow>
     (\<exists>r<length wrapped. \<exists>k<length (wrapped ! r). wrapped ! r ! k \<noteq> space
        \<and> c = new_EffectCharacter (wrapped ! r ! k) (int k + 1) (int (length wrapped) - int r))"
  by (auto simp: input_characters_def in_line_characters in_set_enumerate_eq Bex_def)

lemma input_characters_inactive:
  "c \<in> set (input_characters wrapped) \<Longrightarrow> \<not> is_active c"
  by (auto simp: in_input_characters new_EffectCharacter_def)

lemma input_characters_coord:
  assumes "c \<in> set (input_characters wrapped)"
  shows "1 \<le> row (input_coord c)" and "row (input_coord c) \<le> int (length wrapped)"
    and "1 \<le> column (input_coord c)"
    and "\<forall>l\<in>set wrapped. int (length l) \<le> w \<Longrightarrow> column (input_coord c) \<le> w"
    and "symbol c \<noteq> space"
proof -
  from assms obtain r k where rk: "r < length wrapped" "k < length (wrapped ! r)"
    "wrapped ! r ! k \<noteq> space"
    "c = new_EffectCharacter (wrapped ! r ! k) (int k + 1) (int (length wrapped) - int r)"
    by (auto simp: in_input_characters)
  then show "1 \<le> row (input_coord c)" "row (input_coord c) \<le> int (length wrapped)"
    "1 \<le> column (input_coord c)" "symbol c \<noteq> space"
    by (simp_all add: new_EffectCharacter_def)
  assume "\<forall>l\<in>set wrapped. int (length l) \<le> w"
  with rk(1) have "int (length (wrapped ! r)) \<le> w" by simp
  with rk(2,4) show "column (input_coord c) \<le> w"
    by (simp add: new_EffectCharacter_def)
qed

lemma decompose_input_SomeD:
  assumes "decompose_input w s = Some cs"
  obtains wrapped where "wrap_lines w [] (splitlines s) = Some wrapped"
    and "cs = input_characters wrapped"
  using assms by (auto simp: decompose_input_def split: option.splits)

lemma decompose_input_symbols:
  assumes "1 \<le> w"
  shows "\<exists>cs. decompose_input w s = Some cs
     \<and> map symbol cs = filter (\<lambda>c. c \<noteq> space) (filter (\<lambda>c. \<not> is_linebreak c) s)"
proof -
  from wrap_lines_Some[OF assms, of "[]" "splitlines s"] obtain wrapped where
    "wrap_lines w [] (splitlines s) = Some wrapped" "concat wrapped = concat (splitlines s)"
    by auto
  then show ?thesis
    by (simp add: decompose_input_def symbol_input_characters concat_splitlines)
qed

lemma distinct_line_characters:
  "distinct (map input_coord (line_characters h r line))"
proof -
  have "inj_on (\<lambda>p. input_coord (case p of (c, s) \<Rightarrow> new_EffectCharacter s (int c + 1) (h - int r)))
          (set (filter (\<lambda>(c, s). s \<noteq> space) (enumerate 0 line)))"
    by (auto simp: inj_on_def new_EffectCharacter_def in_set_enumerate_eq)
  then show ?thesis
    by (simp add: line_characters_def distinct_map distinct_enumerate comp_def)
qed

lemma row_line_characters:
  "c \<in> set (line_characters h r line) \<Longrightarrow> row (input_coord c) = h - int r"
  by (auto simp: in_line_characters new_EffectCharacter_def)

lemma distinct_rows_characters:
  "distinct (map fst ps) \<Longrightarrow>
     distinct (map input_coord (concat (map (\<lambda>(r, line). line_characters h r line) ps)))"
proof (induction ps)
  case Nil
  then show ?case by simp
next
  case (Cons p ps)
  obtain r line where p: "p = (r, line)" by (cases p)
  have "input_coord a \<noteq> input_coord b"
    if "a \<in> set (line_characters h r line)"
      and "b \<in> set (concat (map (\<lambda>(r, line). line_characters h r line) ps))" for a b
  proof -
    from that(2) obtain r' line' where "(r', line') \<in> set ps" "b \<in> set (line_characters h r' line')"
      by auto
    moreover from this(1) Cons.prems p have "r' \<noteq> r" by force
    ultimately show ?thesis using that(1) by (auto dest!: row_line_characters)
  qed
  then have "set (map input_coord (line_characters h r line))
      \<inter> set (map input_coord (concat (map (\<lambda>(r, line). line_characters h r line) ps))) = {}"
    by (simp only: set_map) blast
  moreover from Cons have
    "distinct (map input_coord (concat (map (\<lambda>(r, line). line_characters h r line) ps)))"
    by simp
  ultimately show ?case
    unfolding p by (simp only: list.map prod.case concat.simps map_append distinct_append
        distinct_line_characters simp_thms)
qed

lemma distinct_input_characters:
  "distinct (map input_coord (input_characters wrapped))"
  unfolding input_characters_def
  by (rule distinct_rows_characters) (simp add: enumerate_eq_zip)

section \<open>Auxiliary facts about construction\<close>

lemma py_max_Inr: "xs \<noteq> [] \<Longrightarrow> py_max xs = Inr (Max (set xs))"
  using Max.set_eq_fold [of "hd xs" "tl xs"] by (cases xs) simp_all

lemma stamp_all_inactive:
  "\<forall>c\<in>set cs. \<not> is_active c \<Longrightarrow> stamp_all rows cs = Inr rows"
  by (induction cs) (simp_all add: stamp_def)

lemma Terminal_init_Inr:
  assumes "decompose_input w s = Some cs" and "cs \<noteq> []"
  shows "Terminal_init w h s = Some (Inr
     \<lparr>input_data = s, width = w, height = h,
      characters = filter (\<lambda>c. row (input_coord c)
          \<le> min (h - 1) (Max (set (map (\<lambda>c. row (input_coord c)) cs)))) cs,
      input_width = Max (set (map (\<lambda>c. column (input_coord c)) cs)),
      input_height = Max (set (map (\<lambda>c. row (input_coord c)) cs)),
      output_area = new_OutputArea (min (h - 1) (Max (set (map (\<lambda>c. row (input_coord c)) cs))))
          (Max (set (map (\<lambda>c. column (input_coord c)) cs))),
      terminal_state = blank_rows (new_OutputArea
          (min (h - 1) (Max (set (map (\<lambda>c. row (input_coord c)) cs))))
          (Max (set (map (\<lambda>c. column (input_coord c)) cs))))\<rparr>)"
proof -
  from assms(1) obtain wrapped where cs: "cs = input_characters wrapped"
    by (rule decompose_input_SomeD)
  then have inactive: "\<forall>c\<in>set (filter P cs). \<not> is_active c" for P
    by (auto dest: input_characters_inactive)
  from assms(2) have m: "py_max (map f cs) = Inr (Max (set (map f cs)))" for f :: "EffectCharacter \<Rightarrow> int"
    by (intro py_max_Inr) simp
  show ?thesis
    unfolding Terminal_init_def assms(1) option.case m sum.case Let_def update_terminal_state_def
    by (simp add: stamp_all_inactive[OF inactive] new_OutputArea_def)
qed

lemma Terminal_init_ValueError:
  "decompose_input w s = Some [] \<Longrightarrow> Terminal_init w h s = Some (Inl ValueError)"
  by (simp add: Terminal_init_def)

lemma Terminal_init_None:
  "decompose_input w s = None \<Longrightarrow> Terminal_init w h s = None"
  by (simp add: Terminal_init_def)

lemma update_terminal_state_frame:
  "update_terminal_state t = Inr t' \<Longrightarrow>
     output_area t' = output_area t \<and> characters t' = characters t"
  by (auto simp: update_terminal_state_def split: sum.splits)

lemma print_terminal_frame:
  "print_terminal t = Inr (t', out) \<Longrightarrow>
     output_area t' = output_area t \<and> characters t' = characters t"
  by (auto simp: print_terminal_def split: sum.splits dest: update_terminal_state_frame)

lemma Terminal_init_InrD:
  assumes "Terminal_init w h s = Some (Inr t)"
  obtains cs where "decompose_input w s = Some cs" and "cs \<noteq> []"
    and "output_area t = new_OutputArea
          (min (h - 1) (Max (set (map (\<lambda>c. row (input_coord c)) cs))))
          (Max (set (map (\<lambda>c. column (input_coord c)) cs)))"
    and "characters t = filter (\<lambda>c. row (input_coord c) \<le> top_row (output_area t)) cs"
proof (cases "decompose_input w s")
  case None
  with assms show ?thesis by (simp add: Terminal_init_None)
next
  case (Some cs)
  show ?thesis
  proof (cases "cs = []")
    case True
    with Some assms show ?thesis by (simp add: Terminal_init_ValueError)
  next
    case False
    from Terminal_init_Inr[OF Some False, of h] assms that[OF Some False] show ?thesis
      by (auto simp: new_OutputArea_def)
  qed
qed

text \<open>Three runs of the constructor, evaluated.\<close>

lemmas run_defs =
  Terminal_init_def decompose_input_def splitlines_def str_def wrap_line.simps
  input_characters_def line_characters_def enumerate_eq_zip space_def is_linebreak_def
  new_EffectCharacter_def new_OutputArea_def update_terminal_state_def blank_rows_def
  stamp_def py_index_def slice_to_def slice_from_def

lemma Terminal_init_AB:
  "Terminal_init 80 24 (str ''AB'') = Some (Inr
     \<lparr>input_data = str ''AB'', width = 80, height = 24,
      characters = [new_EffectCharacter (of_char CHR ''A'') 1 1, new_EffectCharacter (of_char CHR ''B'') 2 1],
      input_width = 2, input_height = 1,
      output_area = new_OutputArea 1 2,
      terminal_state = [str ''  '']\<rparr>)"
  by (simp add: run_defs numeral_2_eq_2)

lemma Terminal_init_truncated:
  "Terminal_init 3 2 (str ''ABCDEFG'') = Some (Inr
     \<lparr>input_data = str ''ABCDEFG'', width = 3, height = 2,
      characters = [new_EffectCharacter (of_char CHR ''G'') 1 1],
      input_width = 3, input_height = 3,
      output_area = new_OutputArea 1 3,
      terminal_state = [str ''   '']\<rparr>)"
  by (simp add: run_defs numeral_3_eq_3)

lemma Terminal_init_one_row:
  "Terminal_init 80 1 (str ''A'') = Some (Inr
     \<lparr>input_data = str ''A'', width = 80, height = 1,
      characters = [],
      input_width = 1, input_height = 1,
      output_area = new_OutputArea 0 1,
      terminal_state = []\<rparr>)"
  by (simp add: run_defs)

section \<open>Auxiliary facts about rendering\<close>

lemma grid_blank_rows: "grid (nat (top_row a)) (nat (right_column a)) (blank_rows a)"
  by (simp add: grid_def blank_rows_def)

lemma stamp_inside:
  assumes "grid T R rows" and "is_active c"
    and "1 \<le> row (current_coord c)" "row (current_coord c) \<le> int T"
    and "1 \<le> column (current_coord c)" "column (current_coord c) \<le> int R"
  shows "stamp rows c = Inr (rows[nat (row (current_coord c) - 1) :=
           (rows ! nat (row (current_coord c) - 1))[nat (column (current_coord c) - 1) := symbol c]])"
proof -
  from assms have r: "py_index (length rows) (row (current_coord c) - 1) = Inr (nat (row (current_coord c) - 1))"
    by (simp add: py_index_def grid_def)
  from assms have "nat (row (current_coord c) - 1) < length rows"
    by (auto simp: grid_def)
  with assms(1) have "length (rows ! nat (row (current_coord c) - 1)) = R"
    by (simp add: grid_def)
  with assms have k: "py_index (length (rows ! nat (row (current_coord c) - 1))) (column (current_coord c) - 1)
      = Inr (nat (column (current_coord c) - 1))"
    by (simp add: py_index_def)
  show ?thesis
    using assms(2) by (simp add: stamp_def r k)
qed

lemma grid_update:
  assumes "grid T R rows"
  shows "grid T R (rows[r := (rows ! r)[k := s]])"
proof (cases "r < length rows")
  case True
  with assms have "length ((rows ! r)[k := s]) = R" by (simp add: grid_def)
  moreover have "set (rows[r := (rows ! r)[k := s]]) \<subseteq> insert ((rows ! r)[k := s]) (set rows)"
    by (rule set_update_subset_insert)
  ultimately show ?thesis using assms by (auto simp: grid_def)
next
  case False
  then have "rows[r := (rows ! r)[k := s]] = rows" by (intro list_update_beyond) simp
  with assms show ?thesis by simp
qed

lemma cell_update:
  assumes "grid T R rows"
    and "1 \<le> row q" "row q \<le> int T" "1 \<le> column q" "column q \<le> int R"
    and "1 \<le> row p" "row p \<le> int T" "1 \<le> column p" "column p \<le> int R"
  shows "cell (rows[nat (row q - 1) := (rows ! nat (row q - 1))[nat (column q - 1) := s]]) p
       = (if row p = row q \<and> column p = column q then s else cell rows p)"
proof -
  let ?r = "nat (row q - 1)" and ?k = "nat (column q - 1)"
  let ?r' = "nat (row p - 1)" and ?k' = "nat (column p - 1)"
  from assms(1) have T: "length rows = T" by (simp add: grid_def)
  from assms(2,3) T have r: "?r < length rows" by linarith
  from assms(6,7) T have r': "?r' < length rows" by linarith
  from assms(1) r have len: "length (rows ! ?r) = R" by (simp add: grid_def)
  from assms(4,5) have k: "?k < R" by linarith
  from assms(2,6) have eqr: "?r' = ?r \<longleftrightarrow> row p = row q" by linarith
  from assms(4,8) have eqk: "?k' = ?k \<longleftrightarrow> column p = column q" by linarith
  show ?thesis
  proof (cases "row p = row q")
    case False
    with eqr have "?r \<noteq> ?r'" by simp
    then show ?thesis using False by (simp add: cell_def)
  next
    case True
    with eqr have rr: "?r' = ?r" by simp
    show ?thesis
    proof (cases "column p = column q")
      case False
      with eqk have "?k \<noteq> ?k'" by simp
      then show ?thesis using False r unfolding cell_def rr by simp
    next
      case eq: True
      with eqk have kk: "?k' = ?k" by simp
      show ?thesis using True eq r k len unfolding cell_def rr kk by simp
    qed
  qed
qed

lemma stamp_all_inside:
  assumes "grid T R rows"
    and "\<forall>c\<in>set cs. is_active c \<longrightarrow>
          1 \<le> row (current_coord c) \<and> row (current_coord c) \<le> int T
          \<and> 1 \<le> column (current_coord c) \<and> column (current_coord c) \<le> int R"
  shows "\<exists>rows'. stamp_all rows cs = Inr rows' \<and> grid T R rows'
      \<and> (\<forall>p. 1 \<le> row p \<and> row p \<le> int T \<and> 1 \<le> column p \<and> column p \<le> int R \<longrightarrow>
            cell rows' p = (case filter (\<lambda>c. is_active c \<and> current_coord c = p) cs of
                              [] \<Rightarrow> cell rows p
                            | d # ds \<Rightarrow> symbol (last (d # ds))))"
  using assms
proof (induction cs arbitrary: rows)
  case Nil
  then show ?case by simp
next
  case (Cons c cs)
  show ?case
  proof (cases "is_active c")
    case False
    then have "stamp rows c = Inr rows" by (simp add: stamp_def)
    with Cons.IH[of rows] Cons.prems False show ?thesis by simp
  next
    case True
    let ?rows1 = "rows[nat (row (current_coord c) - 1) :=
           (rows ! nat (row (current_coord c) - 1))[nat (column (current_coord c) - 1) := symbol c]]"
    from True Cons.prems have b: "1 \<le> row (current_coord c)" "row (current_coord c) \<le> int T"
      "1 \<le> column (current_coord c)" "column (current_coord c) \<le> int R" by simp_all
    from stamp_inside[OF Cons.prems(1) True b] have st: "stamp rows c = Inr ?rows1" .
    have g1: "grid T R ?rows1" using Cons.prems(1) by (rule grid_update)
    from Cons.IH[OF g1] Cons.prems(2) obtain rows' where r': "stamp_all ?rows1 cs = Inr rows'"
      "grid T R rows'"
      "\<forall>p. 1 \<le> row p \<and> row p \<le> int T \<and> 1 \<le> column p \<and> column p \<le> int R \<longrightarrow>
            cell rows' p = (case filter (\<lambda>c. is_active c \<and> current_coord c = p) cs of
                              [] \<Rightarrow> cell ?rows1 p
                            | d # ds \<Rightarrow> symbol (last (d # ds)))"
      by auto
    have "cell rows' p = (case filter (\<lambda>c. is_active c \<and> current_coord c = p) (c # cs) of
                              [] \<Rightarrow> cell rows p
                            | d # ds \<Rightarrow> symbol (last (d # ds)))"
      if p: "1 \<le> row p \<and> row p \<le> int T \<and> 1 \<le> column p \<and> column p \<le> int R" for p
    proof -
      from p have pb: "1 \<le> row p" "row p \<le> int T" "1 \<le> column p" "column p \<le> int R" by simp_all
      have c1: "cell ?rows1 p = (if row p = row (current_coord c) \<and> column p = column (current_coord c)
          then symbol c else cell rows p)"
        by (rule cell_update[OF Cons.prems(1) b pb])
      have eq: "current_coord c = p \<longleftrightarrow> row p = row (current_coord c) \<and> column p = column (current_coord c)"
        by auto
      from r'(3) p have "cell rows' p = (case filter (\<lambda>c. is_active c \<and> current_coord c = p) cs of
                              [] \<Rightarrow> cell ?rows1 p
                            | d # ds \<Rightarrow> symbol (last (d # ds)))" by blast
      note ih = this
      show ?thesis
      proof (cases "current_coord c = p")
        case yes: True
        with eq have "row p = row (current_coord c) \<and> column p = column (current_coord c)" by blast
        with c1 have "cell ?rows1 p = symbol c" by simp
        with ih True yes show ?thesis by (simp split: list.splits)
      next
        case no: False
        with eq have "\<not> (row p = row (current_coord c) \<and> column p = column (current_coord c))" by blast
        with c1 have "cell ?rows1 p = cell rows p" by (simp only: if_False)
        with ih no show ?thesis by (simp split: list.splits)
      qed
    qed
    with st r'(1,2) show ?thesis by simp
  qed
qed

lemmas render_defs =
  print_terminal_def update_terminal_state_def blank_rows_def stamp_def py_index_def
  new_OutputArea_def new_EffectCharacter_def str_def space_def row_writes_def enumerate_eq_zip

section \<open>Auxiliary facts about the driving loops\<close>


lemma truncate_fields [simp]:
  "current_coord (EffectCharacter.truncate c) = current_coord c"
  "is_active (EffectCharacter.truncate c) = is_active c"
  "symbol (EffectCharacter.truncate c) = symbol c"
  by (simp_all add: EffectCharacter.truncate_def)






section \<open>Decomposition of the input\<close>

text \<open>
  C8. The input \<open>"AB"\<close> on a terminal at least two columns wide decomposes into exactly two
  characters, in this order: \<open>A\<close> at row 1, column 1 and \<open>B\<close> at row 1, column 2.
\<close>

theorem decompose_input_AB:
  assumes "2 \<le> w"
  shows "\<exists>cs. decompose_input w (str ''AB'') = Some cs
     \<and> map (\<lambda>c. (symbol c, row (input_coord c), column (input_coord c))) cs
         = [(of_char CHR ''A'', 1, 1), (of_char CHR ''B'', 1, 2)]"
  using assms
  by (simp add: decompose_input_def splitlines_def str_def wrap_line.simps input_characters_def
      line_characters_def enumerate_eq_zip space_def is_linebreak_def new_EffectCharacter_def)

theorem decompose_input_AB_witness:
  "(2::int) \<le> 2 \<and> (\<exists>cs. decompose_input 2 (str ''AB'') = Some cs
     \<and> map (\<lambda>c. (symbol c, row (input_coord c), column (input_coord c))) cs
         = [(of_char CHR ''A'', 1, 1), (of_char CHR ''B'', 1, 2)])"
  using decompose_input_AB [of 2] by simp

text \<open>
  C10. Decomposition returns for every input when the terminal is at least one column
  wide. In that case each pass of the wrapping loop leaves a strictly shorter line. With
  width 0 the slice \<open>line[0:]\<close> is the line itself, the loop never returns on a line that
  is not empty, and neither does decomposition of an input that has such a line; with a
  width below 0 decomposition returns on no input that has a line at all.
\<close>

theorem decompose_input_terminates:
  "(1 \<le> w \<longrightarrow> (\<exists>cs. decompose_input w s = Some cs))
   \<and> (1 \<le> w \<and> w < int (length line) \<longrightarrow> length (slice_from line w) < length line)
   \<and> slice_from line 0 = line
   \<and> (line \<noteq> [] \<longrightarrow> wrap_line 0 acc line = None)
   \<and> ((\<exists>l\<in>set (splitlines s). l \<noteq> []) \<longrightarrow> decompose_input 0 s = None)
   \<and> (v < 0 \<and> splitlines s \<noteq> [] \<longrightarrow> decompose_input v s = None)"
proof (intro conjI impI)
  assume "1 \<le> w"
  from wrap_lines_Some[OF this, of "[]" "splitlines s"]
  show "\<exists>cs. decompose_input w s = Some cs"
    by (auto simp: decompose_input_def)
next
  assume "1 \<le> w \<and> w < int (length line)"
  then show "length (slice_from line w) < length line"
    by (auto simp: slice_from_def)
next
  show "slice_from line 0 = line"
    by (simp add: slice_from_def)
next
  assume "line \<noteq> []"
  then show "wrap_line 0 acc line = None"
    by (intro wrap_line_None) simp_all
next
  assume "\<exists>l\<in>set (splitlines s). l \<noteq> []"
  then obtain l where "l \<in> set (splitlines s)" "int (length l) > 0" by auto
  then have "wrap_lines 0 [] (splitlines s) = None"
    by (intro wrap_lines_None[of 0 l]) simp_all
  then show "decompose_input 0 s = None"
    by (simp add: decompose_input_def)
next
  assume neg: "v < 0 \<and> splitlines s \<noteq> []"
  then obtain l where "l \<in> set (splitlines s)" by (cases "splitlines s") auto
  with neg have "wrap_lines v [] (splitlines s) = None"
    by (intro wrap_lines_None[of v l]) simp_all
  then show "decompose_input v s = None"
    by (simp add: decompose_input_def)
qed

theorem decompose_input_terminates_witness:
  "(1::int) \<le> 2 \<and> (\<exists>cs. decompose_input 2 (str ''ABC'') = Some cs)
   \<and> 2 < int (length (str ''ABC'')) \<and> length (slice_from (str ''ABC'') 2) < length (str ''ABC'')
   \<and> str ''ABC'' \<noteq> [] \<and> wrap_line 0 [] (str ''ABC'') = None
   \<and> (\<exists>l\<in>set (splitlines (str ''ABC'')). l \<noteq> []) \<and> decompose_input 0 (str ''ABC'') = None
   \<and> (-1::int) < 0 \<and> splitlines (str ''ABC'') \<noteq> [] \<and> decompose_input (-1) (str ''ABC'') = None"
  using decompose_input_terminates [of 2 "str ''ABC''" "str ''ABC''" "[]" "-1"]
  by (simp add: str_def splitlines_def is_linebreak_def)

text \<open>
  C3. On a terminal at least one column wide, decomposition returns for every input. Each
  input line is cut into chunks that are not empty and at most \<open>w\<close> symbols long, and the
  chunks of a line put together are the line. The characters are the symbols of the
  wrapped lines other than the space, one character for each and in the same order, at
  pairwise different input coordinates; none has the space as its symbol and every input
  column lies between 1 and \<open>w\<close>.
\<close>

theorem decompose_input_wraps:
  assumes "1 \<le> w"
  shows "\<exists>chunks cs. wrap_lines w [] (splitlines s) = Some (concat chunks)
     \<and> list_all2 (\<lambda>line ch. concat ch = line \<and> (\<forall>c\<in>set ch. c \<noteq> [] \<and> int (length c) \<le> w))
          (splitlines s) chunks
     \<and> decompose_input w s = Some cs
     \<and> map symbol cs = filter (\<lambda>x. x \<noteq> space) (concat (concat chunks))
     \<and> distinct (map input_coord cs)
     \<and> (\<forall>c\<in>set cs. symbol c \<noteq> space \<and> 1 \<le> column (input_coord c) \<and> column (input_coord c) \<le> w)"
proof -
  from wrap_lines_chunks[OF assms, of "[]" "splitlines s"] obtain chunks where
    ch: "wrap_lines w [] (splitlines s) = Some (concat chunks)"
      "list_all2 (\<lambda>line ch. concat ch = line \<and> (\<forall>c\<in>set ch. c \<noteq> [] \<and> int (length c) \<le> w))
          (splitlines s) chunks"
    by auto
  let ?cs = "input_characters (concat chunks)"
  have len: "\<forall>l\<in>set (concat chunks). int (length l) \<le> w"
  proof
    fix l assume "l \<in> set (concat chunks)"
    then obtain ch where "ch \<in> set chunks" "l \<in> set ch" by auto
    moreover from this(1) ch(2) have "\<forall>c\<in>set ch. c \<noteq> [] \<and> int (length c) \<le> w"
      by (auto simp: list_all2_conv_all_nth in_set_conv_nth)
    ultimately show "int (length l) \<le> w" by blast
  qed
  have "decompose_input w s = Some ?cs"
    using ch(1) by (simp add: decompose_input_def)
  moreover have "\<forall>c\<in>set ?cs. symbol c \<noteq> space \<and> 1 \<le> column (input_coord c) \<and> column (input_coord c) \<le> w"
    using input_characters_coord(3,5) [of _ "concat chunks"]
      input_characters_coord(4) [OF _ len] by blast
  ultimately show ?thesis
    using ch by (intro exI[of _ chunks] exI[of _ ?cs])
      (simp add: symbol_input_characters distinct_input_characters)
qed

theorem decompose_input_wraps_witness:
  "(1::int) \<le> 2 \<and> (\<exists>chunks cs. wrap_lines 2 [] (splitlines (str ''A BC'')) = Some (concat chunks)
     \<and> list_all2 (\<lambda>line ch. concat ch = line \<and> (\<forall>c\<in>set ch. c \<noteq> [] \<and> int (length c) \<le> 2))
          (splitlines (str ''A BC'')) chunks
     \<and> decompose_input 2 (str ''A BC'') = Some cs
     \<and> map symbol cs = filter (\<lambda>x. x \<noteq> space) (concat (concat chunks))
     \<and> distinct (map input_coord cs)
     \<and> (\<forall>c\<in>set cs. symbol c \<noteq> space \<and> 1 \<le> column (input_coord c) \<and> column (input_coord c) \<le> 2))"
  using decompose_input_wraps [of 2 "str ''A BC''"] by simp

section \<open>Construction of the terminal\<close>

text \<open>
  C2. Whenever construction returns a terminal, the input has decomposed into at least one
  character, the top of the output area is the smaller of the terminal height less one
  and the largest input row, and its right column is the largest input column.
  Construction does return a terminal when the terminal is at least one column wide and
  the input holds a symbol that is neither a space nor a line boundary.
\<close>

theorem output_area_dimensions:
  "(Terminal_init w h s = Some (Inr t) \<longrightarrow>
      (\<exists>cs. decompose_input w s = Some cs \<and> cs \<noteq> []
         \<and> top_row (output_area t) = min (h - 1) (Max (set (map (\<lambda>c. row (input_coord c)) cs)))
         \<and> right_column (output_area t) = Max (set (map (\<lambda>c. column (input_coord c)) cs))))
   \<and> (1 \<le> w \<and> (\<exists>c\<in>set s. c \<noteq> space \<and> \<not> is_linebreak c) \<longrightarrow>
        (\<exists>t. Terminal_init w h s = Some (Inr t)))"
proof (intro conjI impI)
  assume "Terminal_init w h s = Some (Inr t)"
  then obtain cs where "decompose_input w s = Some cs" "cs \<noteq> []"
    "output_area t = new_OutputArea
          (min (h - 1) (Max (set (map (\<lambda>c. row (input_coord c)) cs))))
          (Max (set (map (\<lambda>c. column (input_coord c)) cs)))"
    by (rule Terminal_init_InrD)
  then show "\<exists>cs. decompose_input w s = Some cs \<and> cs \<noteq> []
         \<and> top_row (output_area t) = min (h - 1) (Max (set (map (\<lambda>c. row (input_coord c)) cs)))
         \<and> right_column (output_area t) = Max (set (map (\<lambda>c. column (input_coord c)) cs))"
    by (simp add: new_OutputArea_def)
next
  assume a: "1 \<le> w \<and> (\<exists>c\<in>set s. c \<noteq> space \<and> \<not> is_linebreak c)"
  with decompose_input_symbols[of w s] obtain cs where cs: "decompose_input w s = Some cs"
    "map symbol cs = filter (\<lambda>c. c \<noteq> space) (filter (\<lambda>c. \<not> is_linebreak c) s)"
    by blast
  from a have "filter (\<lambda>c. c \<noteq> space) (filter (\<lambda>c. \<not> is_linebreak c) s) \<noteq> []"
    by (auto simp: filter_empty_conv)
  with cs(2) have "cs \<noteq> []" by auto
  from Terminal_init_Inr[OF cs(1) this] show "\<exists>t. Terminal_init w h s = Some (Inr t)"
    by blast
qed

theorem output_area_dimensions_witness:
  "Terminal_init 3 2 (str ''ABCDEFG'') = Some (Inr
     \<lparr>input_data = str ''ABCDEFG'', width = 3, height = 2,
      characters = [new_EffectCharacter (of_char CHR ''G'') 1 1],
      input_width = 3, input_height = 3,
      output_area = new_OutputArea 1 3,
      terminal_state = [str ''   '']\<rparr>)
   \<and> (\<exists>cs. decompose_input 3 (str ''ABCDEFG'') = Some cs \<and> cs \<noteq> []
         \<and> top_row (new_OutputArea 1 3) = min (2 - 1) (Max (set (map (\<lambda>c. row (input_coord c)) cs)))
         \<and> right_column (new_OutputArea 1 3) = Max (set (map (\<lambda>c. column (input_coord c)) cs)))
   \<and> (1::int) \<le> 3 \<and> (\<exists>c\<in>set (str ''ABCDEFG''). c \<noteq> space \<and> \<not> is_linebreak c)
   \<and> (\<exists>t. Terminal_init 3 2 (str ''ABCDEFG'') = Some (Inr t))"
  using output_area_dimensions [of 3 2 "str ''ABCDEFG''"
     "\<lparr>input_data = str ''ABCDEFG'', width = 3, height = 2,
      characters = [new_EffectCharacter (of_char CHR ''G'') 1 1],
      input_width = 3, input_height = 3,
      output_area = new_OutputArea 1 3,
      terminal_state = [str ''   '']\<rparr>"] Terminal_init_truncated
  by (simp add: str_def space_def is_linebreak_def)

text \<open>
  C6. On a terminal at least one column wide, an input made of spaces and line boundaries
  only (the empty string among them) is rejected: the constructor raises \<open>ValueError\<close>
  and builds no terminal.
\<close>

theorem empty_input_rejected:
  assumes "1 \<le> w" and "\<forall>c\<in>set s. c = space \<or> is_linebreak c"
  shows "Terminal_init w h s = Some (Inl ValueError)"
proof -
  from decompose_input_symbols[OF assms(1), of s] obtain cs where cs: "decompose_input w s = Some cs"
    "map symbol cs = filter (\<lambda>c. c \<noteq> space) (filter (\<lambda>c. \<not> is_linebreak c) s)"
    by blast
  from assms(2) have "filter (\<lambda>c. c \<noteq> space) (filter (\<lambda>c. \<not> is_linebreak c) s) = []"
    by (auto simp: filter_empty_conv)
  with cs(2) have "cs = []" by simp
  with cs(1) show ?thesis by (simp add: Terminal_init_ValueError)
qed

theorem empty_input_rejected_witness:
  "(1::int) \<le> 80 \<and> list_all (\<lambda>c. c = space \<or> is_linebreak c) (str ''  '')
    \<and> Terminal_init 80 24 (str ''  '') = Some (Inl ValueError)"
  using empty_input_rejected [of 80 "str ''  ''" 24]
  by (simp add: str_def space_def)

text \<open>
  C7, as the specification states it, fails: on a terminal of height 1 the input \<open>"A"\<close>
  gives an output area with top 0 and bottom 1.
\<close>

theorem output_area_invariant_counterexample:
  "Terminal_init 80 1 (str ''A'') = Some (Inr
     \<lparr>input_data = str ''A'', width = 80, height = 1,
      characters = [],
      input_width = 1, input_height = 1,
      output_area = new_OutputArea 0 1,
      terminal_state = []\<rparr>)
   \<and> \<not> bottom_row (new_OutputArea 0 1) \<le> top_row (new_OutputArea 0 1)"
  using Terminal_init_one_row by (simp add: new_OutputArea_def)

text \<open>
  C7, amended. The output area of every terminal that construction returns has its left
  column at or before its right column; its bottom row is at or below its top row exactly
  when the terminal is at least two rows high. Updating the terminal state and printing
  leave the output area as it is.
\<close>

theorem output_area_invariant:
  assumes "Terminal_init w h s = Some (Inr t)"
  shows "left_column (output_area t) \<le> right_column (output_area t)
     \<and> (bottom_row (output_area t) \<le> top_row (output_area t) \<longleftrightarrow> 2 \<le> h)
     \<and> (\<forall>t'. update_terminal_state t = Inr t' \<longrightarrow> output_area t' = output_area t)
     \<and> (\<forall>t' out. print_terminal t = Inr (t', out) \<longrightarrow> output_area t' = output_area t)"
proof -
  from assms obtain cs where cs: "decompose_input w s = Some cs" "cs \<noteq> []"
    "output_area t = new_OutputArea
          (min (h - 1) (Max (set (map (\<lambda>c. row (input_coord c)) cs))))
          (Max (set (map (\<lambda>c. column (input_coord c)) cs)))"
    by (rule Terminal_init_InrD)
  from cs(1) obtain wrapped where wr: "cs = input_characters wrapped"
    by (rule decompose_input_SomeD)
  from cs(2) obtain c where c: "c \<in> set cs" by (cases cs) auto
  with wr have "1 \<le> row (input_coord c)" "1 \<le> column (input_coord c)"
    by (auto dest: input_characters_coord)
  moreover from c have "row (input_coord c) \<le> Max (set (map (\<lambda>c. row (input_coord c)) cs))"
    "column (input_coord c) \<le> Max (set (map (\<lambda>c. column (input_coord c)) cs))"
    by (auto intro!: Max_ge)
  ultimately have "1 \<le> Max (set (map (\<lambda>c. row (input_coord c)) cs))"
    "1 \<le> Max (set (map (\<lambda>c. column (input_coord c)) cs))"
    by linarith+
  with cs(3) show ?thesis
    by (auto simp: new_OutputArea_def dest: update_terminal_state_frame print_terminal_frame)
qed

theorem output_area_invariant_witness:
  "Terminal_init 80 24 (str ''AB'') = Some (Inr
     \<lparr>input_data = str ''AB'', width = 80, height = 24,
      characters = [new_EffectCharacter (of_char CHR ''A'') 1 1, new_EffectCharacter (of_char CHR ''B'') 2 1],
      input_width = 2, input_height = 1,
      output_area = new_OutputArea 1 2,
      terminal_state = [str ''  '']\<rparr>)
   \<and> left_column (new_OutputArea 1 2) \<le> right_column (new_OutputArea 1 2)
   \<and> bottom_row (new_OutputArea 1 2) \<le> top_row (new_OutputArea 1 2)
   \<and> update_terminal_state
        \<lparr>input_data = str ''AB'', width = 80, height = 24,
         characters = [new_EffectCharacter (of_char CHR ''A'') 1 1,
                       new_EffectCharacter (of_char CHR ''B'') 2 1],
         input_width = 2, input_height = 1,
         output_area = new_OutputArea 1 2,
         terminal_state = [str ''  '']\<rparr>
      = Inr
        \<lparr>input_data = str ''AB'', width = 80, height = 24,
         characters = [new_EffectCharacter (of_char CHR ''A'') 1 1,
                       new_EffectCharacter (of_char CHR ''B'') 2 1],
         input_width = 2, input_height = 1,
         output_area = new_OutputArea 1 2,
         terminal_state = [str ''  '']\<rparr>"
  using output_area_invariant [OF Terminal_init_AB] Terminal_init_AB
  by (simp add: render_defs numeral_2_eq_2)

text \<open>
  C9. The characters of a terminal that construction returns are the decomposed
  characters whose input row is at most the top of the output area, the others being
  dropped; so every retained character has its input row at or below the top, and this
  still holds after the terminal state is updated and after printing.
\<close>

theorem retained_rows:
  assumes "Terminal_init w h s = Some (Inr t)"
  shows "(\<exists>cs. decompose_input w s = Some cs
           \<and> characters t = filter (\<lambda>c. row (input_coord c) \<le> top_row (output_area t)) cs)
     \<and> (\<forall>c\<in>set (characters t). row (input_coord c) \<le> top_row (output_area t))
     \<and> (\<forall>t'. update_terminal_state t = Inr t' \<longrightarrow>
            (\<forall>c\<in>set (characters t'). row (input_coord c) \<le> top_row (output_area t')))
     \<and> (\<forall>t' out. print_terminal t = Inr (t', out) \<longrightarrow>
            (\<forall>c\<in>set (characters t'). row (input_coord c) \<le> top_row (output_area t')))"
proof -
  from assms obtain cs where cs: "decompose_input w s = Some cs"
    "characters t = filter (\<lambda>c. row (input_coord c) \<le> top_row (output_area t)) cs"
    by (rule Terminal_init_InrD)
  then have inv: "\<forall>c\<in>set (characters t). row (input_coord c) \<le> top_row (output_area t)"
    by simp
  from cs inv show ?thesis
    by (auto dest!: update_terminal_state_frame print_terminal_frame)
qed

theorem retained_rows_witness:
  "Terminal_init 3 2 (str ''ABCDEFG'') = Some (Inr
     \<lparr>input_data = str ''ABCDEFG'', width = 3, height = 2,
      characters = [new_EffectCharacter (of_char CHR ''G'') 1 1],
      input_width = 3, input_height = 3,
      output_area = new_OutputArea 1 3,
      terminal_state = [str ''   '']\<rparr>)
   \<and> list_all (\<lambda>c. row (input_coord c) \<le> top_row (new_OutputArea 1 3))
        [new_EffectCharacter (of_char CHR ''G'') 1 1]
   \<and> update_terminal_state
        \<lparr>input_data = str ''ABCDEFG'', width = 3, height = 2,
         characters = [new_EffectCharacter (of_char CHR ''G'') 1 1],
         input_width = 3, input_height = 3,
         output_area = new_OutputArea 1 3,
         terminal_state = [str ''   '']\<rparr>
      = Inr
        \<lparr>input_data = str ''ABCDEFG'', width = 3, height = 2,
         characters = [new_EffectCharacter (of_char CHR ''G'') 1 1],
         input_width = 3, input_height = 3,
         output_area = new_OutputArea 1 3,
         terminal_state = [str ''   '']\<rparr>"
  using retained_rows [OF Terminal_init_truncated] Terminal_init_truncated
  by (simp add: render_defs numeral_3_eq_3)

section \<open>Rendering\<close>

text \<open>
  C1, as the specification states it, fails: \<open>A\<close> on layer 1 and \<open>B\<close> on layer 0 stand on
  the same cell, \<open>B\<close> later in the list of characters; the highest layer is that of \<open>A\<close>,
  and the cell shows \<open>B\<close>.
\<close>

theorem highest_layer_counterexample:
  "update_terminal_state
      \<lparr>input_data = str ''AB'', width = 80, height = 24,
       characters =
         [(new_EffectCharacter (of_char CHR ''A'') 1 1)\<lparr>is_active := True, layer := 1\<rparr>,
          (new_EffectCharacter (of_char CHR ''B'') 2 1)
             \<lparr>is_active := True, current_coord := \<lparr>column = 1, row = 1\<rparr>\<rparr>],
       input_width = 2, input_height = 1, output_area = new_OutputArea 1 2,
       terminal_state = [str ''  '']\<rparr>
    = Inr
      \<lparr>input_data = str ''AB'', width = 80, height = 24,
       characters =
         [(new_EffectCharacter (of_char CHR ''A'') 1 1)\<lparr>is_active := True, layer := 1\<rparr>,
          (new_EffectCharacter (of_char CHR ''B'') 2 1)
             \<lparr>is_active := True, current_coord := \<lparr>column = 1, row = 1\<rparr>\<rparr>],
       input_width = 2, input_height = 1, output_area = new_OutputArea 1 2,
       terminal_state = [str ''B '']\<rparr>
   \<and> cell [str ''B ''] \<lparr>column = 1, row = 1\<rparr> = of_char CHR ''B''
   \<and> highest_layer
        [(new_EffectCharacter (of_char CHR ''A'') 1 1)\<lparr>is_active := True, layer := 1\<rparr>,
         (new_EffectCharacter (of_char CHR ''B'') 2 1)
            \<lparr>is_active := True, current_coord := \<lparr>column = 1, row = 1\<rparr>\<rparr>]
        \<lparr>column = 1, row = 1\<rparr> = of_char CHR ''A''"
  by (simp add: render_defs cell_def highest_layer_def numeral_2_eq_2)

text \<open>
  C1, amended. When every active character stands inside the output area, rendering
  succeeds, and every cell of the output area shows the symbol of the last active
  character, in the order of the list of characters, that stands on it, or a blank when
  there is none. The layer plays no part.
\<close>

theorem last_stamped_wins:
  assumes "bottom_row (output_area t) = 1" and "left_column (output_area t) = 1"
    and "\<forall>c\<in>set (characters t). is_active c \<longrightarrow> inside (output_area t) (current_coord c)"
  shows "\<exists>t' out. print_terminal t = Inr (t', out) \<and> update_terminal_state t = Inr t'
     \<and> (\<forall>p. inside (output_area t) p \<longrightarrow> cell (terminal_state t') p = last_stamped (characters t) p)"
proof -
  let ?T = "nat (top_row (output_area t))" and ?R = "nat (right_column (output_area t))"
  have b: "\<forall>c\<in>set (characters t). is_active c \<longrightarrow>
          1 \<le> row (current_coord c) \<and> row (current_coord c) \<le> int ?T
          \<and> 1 \<le> column (current_coord c) \<and> column (current_coord c) \<le> int ?R"
    using assms by (auto simp: inside_def)
  from stamp_all_inside[OF grid_blank_rows b] obtain rows' where
    r: "stamp_all (blank_rows (output_area t)) (characters t) = Inr rows'"
    "\<forall>p. 1 \<le> row p \<and> row p \<le> int ?T \<and> 1 \<le> column p \<and> column p \<le> int ?R \<longrightarrow>
        cell rows' p = (case filter (\<lambda>c. is_active c \<and> current_coord c = p) (characters t) of
                          [] \<Rightarrow> cell (blank_rows (output_area t)) p
                        | d # ds \<Rightarrow> symbol (last (d # ds)))"
    by blast
  have blank: "cell (blank_rows (output_area t)) p = space" if "inside (output_area t) p" for p
    using that assms(1,2) by (simp add: cell_def blank_rows_def inside_def)
  have "cell rows' p = last_stamped (characters t) p" if "inside (output_area t) p" for p
  proof -
    from that assms(1,2) have "1 \<le> row p \<and> row p \<le> int ?T \<and> 1 \<le> column p \<and> column p \<le> int ?R"
      by (auto simp: inside_def)
    with r(2) blank[OF that] show ?thesis
      by (simp add: last_stamped_def split: list.splits)
  qed
  with r(1) show ?thesis
    by (simp add: print_terminal_def update_terminal_state_def)
qed

theorem last_stamped_wins_witness:
  "bottom_row (new_OutputArea 1 2) = 1 \<and> left_column (new_OutputArea 1 2) = 1
   \<and> list_all (\<lambda>c. is_active c \<longrightarrow> inside (new_OutputArea 1 2) (current_coord c))
        [(new_EffectCharacter (of_char CHR ''A'') 1 1)\<lparr>is_active := True\<rparr>,
         (new_EffectCharacter (of_char CHR ''B'') 2 1)
            \<lparr>is_active := True, current_coord := \<lparr>column = 1, row = 1\<rparr>\<rparr>]
   \<and> inside (new_OutputArea 1 2) \<lparr>column = 1, row = 1\<rparr>
   \<and> (\<exists>t' out. print_terminal
          \<lparr>input_data = str ''AB'', width = 80, height = 24,
           characters =
             [(new_EffectCharacter (of_char CHR ''A'') 1 1)\<lparr>is_active := True\<rparr>,
              (new_EffectCharacter (of_char CHR ''B'') 2 1)
                 \<lparr>is_active := True, current_coord := \<lparr>column = 1, row = 1\<rparr>\<rparr>],
           input_width = 2, input_height = 1, output_area = new_OutputArea 1 2,
           terminal_state = [str ''  '']\<rparr> = Inr (t', out)
        \<and> cell (terminal_state t') \<lparr>column = 1, row = 1\<rparr> = of_char CHR ''B'')"
proof -
  let ?cs = "[(new_EffectCharacter (of_char CHR ''A'') 1 1)\<lparr>is_active := True\<rparr>,
              (new_EffectCharacter (of_char CHR ''B'') 2 1)
                 \<lparr>is_active := True, current_coord := \<lparr>column = 1, row = 1\<rparr>\<rparr>]"
  let ?t = "\<lparr>input_data = str ''AB'', width = 80, height = 24, characters = ?cs,
           input_width = 2, input_height = 1, output_area = new_OutputArea 1 2,
           terminal_state = [str ''  '']\<rparr>"
  have h1: "bottom_row (output_area ?t) = 1" and h2: "left_column (output_area ?t) = 1"
    by (simp_all add: new_OutputArea_def)
  have h3: "\<forall>c\<in>set (characters ?t). is_active c \<longrightarrow> inside (output_area ?t) (current_coord c)"
    by (simp add: new_OutputArea_def new_EffectCharacter_def inside_def)
  have h4: "inside (output_area ?t) \<lparr>column = 1, row = 1\<rparr>"
    by (simp add: new_OutputArea_def inside_def)
  from last_stamped_wins [OF h1 h2 h3] obtain t' out where
    p: "print_terminal ?t = Inr (t', out)"
    and c: "\<forall>p. inside (output_area ?t) p \<longrightarrow> cell (terminal_state t') p = last_stamped (characters ?t) p"
    by blast
  from c h4 have "cell (terminal_state t') \<lparr>column = 1, row = 1\<rparr>
      = last_stamped (characters ?t) \<lparr>column = 1, row = 1\<rparr>" by blast
  also have "\<dots> = of_char CHR ''B''"
    by (simp add: last_stamped_def new_EffectCharacter_def)
  finally have "cell (terminal_state t') \<lparr>column = 1, row = 1\<rparr> = of_char CHR ''B''" .
  with p h1 h2 h3 h4 show ?thesis
    by (auto simp: list_all_iff)
qed

text \<open>
  C4. The compositor at two inputs with an active character outside the output area of
  \<open>"AB"\<close>. At coordinate (0, 0) both indices are \<open>-1\<close>, which Python counts from the end:
  the symbol lands in the last cell of the last row and replaces \<open>B\<close>. At row 2, above the
  area, the update raises \<open>IndexError\<close>.
\<close>

theorem render_outside_area:
  "update_terminal_state
      \<lparr>input_data = str ''AB'', width = 80, height = 24,
       characters =
         [(new_EffectCharacter (of_char CHR ''A'') 1 1)\<lparr>is_active := True\<rparr>,
          (new_EffectCharacter (of_char CHR ''B'') 2 1)\<lparr>is_active := True\<rparr>,
          (new_EffectCharacter (of_char CHR ''1'') 0 0)\<lparr>is_active := True\<rparr>],
       input_width = 2, input_height = 1, output_area = new_OutputArea 1 2,
       terminal_state = [str ''AB'']\<rparr>
    = Inr
      \<lparr>input_data = str ''AB'', width = 80, height = 24,
       characters =
         [(new_EffectCharacter (of_char CHR ''A'') 1 1)\<lparr>is_active := True\<rparr>,
          (new_EffectCharacter (of_char CHR ''B'') 2 1)\<lparr>is_active := True\<rparr>,
          (new_EffectCharacter (of_char CHR ''1'') 0 0)\<lparr>is_active := True\<rparr>],
       input_width = 2, input_height = 1, output_area = new_OutputArea 1 2,
       terminal_state = [str ''A1'']\<rparr>
   \<and> \<not> inside (new_OutputArea 1 2) (current_coord (new_EffectCharacter (of_char CHR ''1'') 0 0))
   \<and> update_terminal_state
      \<lparr>input_data = str ''AB'', width = 80, height = 24,
       characters =
         [(new_EffectCharacter (of_char CHR ''A'') 1 1)\<lparr>is_active := True\<rparr>,
          (new_EffectCharacter (of_char CHR ''B'') 2 1)
             \<lparr>is_active := True, current_coord := \<lparr>column = 2, row = 2\<rparr>\<rparr>],
       input_width = 2, input_height = 1, output_area = new_OutputArea 1 2,
       terminal_state = [str ''AB'']\<rparr>
    = Inl IndexError"
  by (simp add: render_defs inside_def numeral_2_eq_2)

section \<open>Order of ticking and rendering\<close>



end
